theory Spec2Isabelle
  imports Complex_Main "HOL-Library.Sublist" "HOL-Library.Log_Nat"
begin

section \<open>Strings\<close>

text \<open>
  A Python \<open>str\<close> is a sequence of code points. The model takes the code points
  U+0000 to U+00FF, one \<^typ>\<open>char\<close> each (so \<^term>\<open>length\<close> counts code points, as
  \<open>len\<close> does), and writes out for this range the tables that \<open>str.lower\<close>,
  \<open>str.isspace\<close> and the classes \<open>\s\<close>, \<open>\d\<close>, \<open>\w\<close> of the module \<open>re\<close> (for \<open>str\<close>
  patterns, so Unicode-aware) use. Every literal of \<open>junior.py\<close>, its stop words and its
  Portuguese patterns included, lies in this range, and \<open>str.lower\<close> maps the range into
  itself.
\<close>

definition isspace :: "char \<Rightarrow> bool" where
  \<comment> \<open>\<open>str.isspace\<close>, the class \<open>\s\<close>: TAB..CR, FS..US, SPACE, NEL, NBSP\<close>
  "isspace c = (let n = (of_char c :: nat) in
     (9 \<le> n \<and> n \<le> 13) \<or> (28 \<le> n \<and> n \<le> 32) \<or> n = 133 \<or> n = 160)"

definition isdecimal :: "char \<Rightarrow> bool" where
  \<comment> \<open>\<open>str.isdecimal\<close>, the class \<open>\d\<close>: category Nd\<close>
  "isdecimal c = (let n = (of_char c :: nat) in 48 \<le> n \<and> n \<le> 57)"

definition isalnum :: "char \<Rightarrow> bool" where
  \<comment> \<open>\<open>str.isalnum\<close>: letters (A-Z, a-z, U+AA, U+B5, U+BA, U+C0..U+FF without the
      multiplication and division signs) and numeric characters (0-9, the superscripts
      U+B2, U+B3, U+B9, the fractions U+BC..U+BE)\<close>
  "isalnum c = (let n = (of_char c :: nat) in
     (48 \<le> n \<and> n \<le> 57) \<or> (65 \<le> n \<and> n \<le> 90) \<or> (97 \<le> n \<and> n \<le> 122) \<or>
     n = 170 \<or> n = 178 \<or> n = 179 \<or> n = 181 \<or> n = 185 \<or> n = 186 \<or>
     (188 \<le> n \<and> n \<le> 190) \<or> (192 \<le> n \<and> n \<le> 214) \<or> (216 \<le> n \<and> n \<le> 246) \<or>
     (248 \<le> n \<and> n \<le> 255))"

definition isword :: "char \<Rightarrow> bool" where
  \<comment> \<open>the class \<open>\w\<close>: alphanumeric or the underscore\<close>
  "isword c = (isalnum c \<or> c = CHR ''_'')"

definition ispunct :: "char \<Rightarrow> bool" where
  \<comment> \<open>the general categories P and S, punctuation and symbols\<close>
  "ispunct c = (let n = (of_char c :: nat) in
     (33 \<le> n \<and> n \<le> 47) \<or> (58 \<le> n \<and> n \<le> 64) \<or> (91 \<le> n \<and> n \<le> 96) \<or>
     (123 \<le> n \<and> n \<le> 126) \<or> (161 \<le> n \<and> n \<le> 169) \<or> n = 171 \<or> n = 172 \<or>
     (174 \<le> n \<and> n \<le> 177) \<or> n = 180 \<or> (182 \<le> n \<and> n \<le> 184) \<or> n = 187 \<or>
     n = 191 \<or> n = 215 \<or> n = 247)"

definition lower_char :: "char \<Rightarrow> char" where
  "lower_char c = (let n = (of_char c :: nat) in
     if (65 \<le> n \<and> n \<le> 90) \<or> (192 \<le> n \<and> n \<le> 222 \<and> n \<noteq> 215)
     then char_of (n + 32) else c)"

definition lower :: "string \<Rightarrow> string" where
  \<comment> \<open>\<open>s.lower()\<close>\<close>
  "lower s = map lower_char s"

definition strip :: "string \<Rightarrow> string" where
  \<comment> \<open>\<open>s.strip()\<close>: leading and trailing whitespace removed\<close>
  "strip s = rev (dropWhile isspace (rev (dropWhile isspace s)))"

fun tidy :: "string \<Rightarrow> bool" where
  \<comment> \<open>the only whitespace is the space, and no two of them are neighbours\<close>
  "tidy [] = True"
| "tidy [x] = (isspace x \<longrightarrow> x = CHR '' '')"
| "tidy (x # y # zs) = ((isspace x \<longrightarrow> x = CHR '' '' \<and> \<not> isspace y) \<and> tidy (y # zs))"

fun contains :: "string \<Rightarrow> string \<Rightarrow> bool" where
  \<comment> \<open>\<open>sub in s\<close>\<close>
  "contains sub [] = (sub = [])"
| "contains sub (x # xs) = (prefix sub (x # xs) \<or> contains sub xs)"

fun replace_from :: "string \<Rightarrow> string \<Rightarrow> nat \<Rightarrow> string \<Rightarrow> string" where
  \<comment> \<open>the scan of \<open>s.replace(old, new)\<close>; \<open>k\<close> characters of the last occurrence are
      still to be skipped\<close>
  "replace_from old new k [] = []"
| "replace_from old new k (x # xs) =
     (if 0 < k then replace_from old new (k - 1) xs
      else if old \<noteq> [] \<and> prefix old (x # xs) then new @ replace_from old new (length old - 1) xs
      else x # replace_from old new 0 xs)"

definition replace :: "string \<Rightarrow> string \<Rightarrow> string \<Rightarrow> string" where
  \<comment> \<open>\<open>s.replace(old, new)\<close>: every occurrence, left to right, without overlap. Every
      call of \<open>junior.py\<close> has a non-empty \<open>old\<close>.\<close>
  "replace s old new = replace_from old new 0 s"

fun split_from :: "string \<Rightarrow> string \<Rightarrow> string list" where
  \<comment> \<open>the scan of \<open>s.split()\<close>; the first argument is the word read so far\<close>
  "split_from w [] = (if w = [] then [] else [w])"
| "split_from w (x # xs) =
     (if isspace x then (if w = [] then split_from [] xs else w # split_from [] xs)
      else split_from (w @ [x]) xs)"

definition split_ws :: "string \<Rightarrow> string list" where
  \<comment> \<open>\<open>s.split()\<close>: the maximal runs of non-whitespace\<close>
  "split_ws s = split_from [] s"

fun join :: "string \<Rightarrow> string list \<Rightarrow> string" where
  \<comment> \<open>\<open>sep.join(ws)\<close>\<close>
  "join sep [] = []"
| "join sep [w] = w"
| "join sep (w # v # ws) = w @ sep @ join sep (v # ws)"

section \<open>Regular expressions\<close>

text \<open>
  The fragment of Python's \<open>re\<close> that the patterns of \<open>junior.py\<close> use, with its
  backtracking order: a greedy repetition tries the longest run first, an optional part
  is tried before it is left out, the left alternative before the right one. The matcher
  returns every way to match at the start of the input, in the order \<open>re\<close> would try
  them; the first one is the match \<open>re\<close> reports.
\<close>

type_synonym caps = "nat \<Rightarrow> string option"

datatype rx =
    Cls "char \<Rightarrow> bool"
  | Lit string
  | Star "char \<Rightarrow> bool"
  | Plus "char \<Rightarrow> bool"
  | Opt rx
  | Alt rx rx
  | Cat rx rx
  | Grp nat rx
  | Eol

fun star_m :: "(char \<Rightarrow> bool) \<Rightarrow> string \<Rightarrow> string list" where
  \<comment> \<open>the inputs left by \<open>c*\<close>, longest run first\<close>
  "star_m p [] = [[]]"
| "star_m p (x # xs) = (if p x then star_m p xs @ [x # xs] else [x # xs])"

fun rx_m :: "rx \<Rightarrow> string \<times> caps \<Rightarrow> (string \<times> caps) list" where
  "rx_m (Cls p) (s, c) = (case s of [] \<Rightarrow> [] | x # xs \<Rightarrow> if p x then [(xs, c)] else [])"
| "rx_m (Lit l) (s, c) = (if prefix l s then [(drop (length l) s, c)] else [])"
| "rx_m (Star p) (s, c) = map (\<lambda>r. (r, c)) (star_m p s)"
| "rx_m (Plus p) (s, c) =
     (case s of [] \<Rightarrow> [] | x # xs \<Rightarrow> if p x then map (\<lambda>r. (r, c)) (star_m p xs) else [])"
| "rx_m (Opt r) st = rx_m r st @ [st]"
| "rx_m (Alt r1 r2) st = rx_m r1 st @ rx_m r2 st"
| "rx_m (Cat r1 r2) st = concat (map (rx_m r2) (rx_m r1 st))"
| "rx_m (Grp n r) (s, c) =
     map (\<lambda>(s', c'). (s', c'(n \<mapsto> take (length s - length s') s))) (rx_m r (s, c))"
| "rx_m Eol (s, c) = (if s = [] \<or> s = [CHR 0x0A] then [(s, c)] else [])"

definition rx_match :: "rx \<Rightarrow> string \<Rightarrow> (string \<times> caps) option" where
  \<comment> \<open>\<open>re.match\<close>: the text matched at the start of \<open>s\<close> (\<open>group(0)\<close>) and the groups\<close>
  "rx_match r s =
     (case rx_m r (s, Map.empty) of
        [] \<Rightarrow> None
      | (s', c) # _ \<Rightarrow> Some (take (length s - length s') s, c))"

fun rx_search :: "rx \<Rightarrow> string \<Rightarrow> (string \<times> caps) option" where
  \<comment> \<open>\<open>re.search\<close>: the match at the leftmost position that has one\<close>
  "rx_search r [] = rx_match r []"
| "rx_search r (x # xs) =
     (case rx_match r (x # xs) of Some m \<Rightarrow> Some m | None \<Rightarrow> rx_search r xs)"

fun rx_finditer :: "rx \<Rightarrow> nat \<Rightarrow> string \<Rightarrow> (string \<times> caps) list" where
  \<comment> \<open>\<open>re.finditer\<close>: the matches left to right, without overlap; \<open>k\<close> characters of the
      last match are still to be skipped. (After an empty match the scan moves on by one
      character; no pattern of \<open>junior.py\<close> matches the empty string.)\<close>
  "rx_finditer r k [] = (if 0 < k then [] else (case rx_match r [] of None \<Rightarrow> [] | Some m \<Rightarrow> [m]))"
| "rx_finditer r k (x # xs) =
     (if 0 < k then rx_finditer r (k - 1) xs
      else (case rx_match r (x # xs) of
              None \<Rightarrow> rx_finditer r 0 xs
            | Some (g0, c) \<Rightarrow> (g0, c) # rx_finditer r (length g0 - 1) xs))"

fun rx_sub :: "rx \<Rightarrow> string \<Rightarrow> nat \<Rightarrow> string \<Rightarrow> string" where
  \<comment> \<open>\<open>re.sub(r, repl, s)\<close> for a pattern that matches no empty string: every match,
      left to right, replaced by \<open>repl\<close>\<close>
  "rx_sub r repl k [] = []"
| "rx_sub r repl k (x # xs) =
     (if 0 < k then rx_sub r repl (k - 1) xs
      else (case rx_match r (x # xs) of
              None \<Rightarrow> x # rx_sub r repl 0 xs
            | Some (g0, c) \<Rightarrow>
                if g0 = [] then x # rx_sub r repl 0 xs
                else repl @ rx_sub r repl (length g0 - 1) xs))"

section \<open>Helpers: normalize and similarity\<close>

definition STOPWORDS :: "string list" where
  "STOPWORDS =
     [''de'', ''da'', ''do'', ''das'', ''dos'', ''e'', ''a'', ''o'', ''os'', ''as'', ''para'',
      ''por'', ''com'', ''sem'', ''em'', ''no'', ''na'', ''nos'', ''nas'', ''um'', ''uma'',
      ''umas'', ''uns'',
      ''kit'', ''jogo'', ''conjunto'', ''original'', ''novo'', ''nova'',
      ''promo'' @ [CHR 0xE7, CHR 0xE3] @ ''o'', ''oferta'',
      ''rel'' @ [CHR 0xE2] @ ''mpago'', ''frete'', ''gr'' @ [CHR 0xE1] @ ''tis'']"

definition normalize_text :: "string \<Rightarrow> string" where
  "normalize_text s =
     (let s1 = lower s;
          s2 = rx_sub (Cls (\<lambda>c. \<not> (isword c \<or> isspace c))) '' '' 0 s1;
          s3 = strip (rx_sub (Plus isspace) '' '' 0 s2)
      in s3)"

definition top_keywords :: "string \<Rightarrow> nat \<Rightarrow> string" where
  "top_keywords title k =
     (let ws = filter (\<lambda>w. w \<notin> set STOPWORDS \<and> 2 < length w) (split_ws (normalize_text title));
          ws' = take k ws
      in if ws' \<noteq> [] then join ''-'' ws' else take 40 (normalize_text title))"

definition similarity_key :: "string \<Rightarrow> string \<Rightarrow> string" where
  "similarity_key category title = category @ '':'' @ top_keywords title 6"

section \<open>Floats\<close>

text \<open>
  A Python \<open>float\<close> is an IEEE 754 binary64 number. A finite one is modelled by the
  rational number it stands for (the two zeros are not told apart: \<open>int\<close> and the
  comparisons do not tell them apart either). Conversion from a decimal string and
  multiplication round to the nearest representable number, ties to even.
\<close>

datatype pyfloat = Fin rat | PInf | NInf | NaN

definition pow2 :: "int \<Rightarrow> rat" where
  "pow2 e = (if 0 \<le> e then 2 ^ nat e else 1 / 2 ^ nat (- e))"

definition pow10 :: "int \<Rightarrow> rat" where
  "pow10 e = (if 0 \<le> e then 10 ^ nat e else 1 / 10 ^ nat (- e))"

definition ilog2 :: "rat \<Rightarrow> int" where
  \<comment> \<open>for \<open>0 < q\<close>, the \<open>e\<close> with \<open>2 ^ e \<le> q < 2 ^ (e + 1)\<close>\<close>
  "ilog2 q = (let (a, b) = quotient_of q; e0 = bitlen a - bitlen b
              in if pow2 e0 \<le> q then e0 else e0 - 1)"

definition rnd_even :: "rat \<Rightarrow> int" where
  \<comment> \<open>the nearest integer, a tie going to the even one\<close>
  "rnd_even x = (let f = \<lfloor>x\<rfloor>; d = x - of_int f in
     if d < 1 / 2 then f else if 1 / 2 < d then f + 1 else if even f then f else f + 1)"

definition round_double :: "rat \<Rightarrow> pyfloat" where
  \<comment> \<open>53 bits of precision, least exponent \<open>-1074\<close> (subnormal numbers), overflow to
      an infinity from \<open>2 ^ 1024\<close> on\<close>
  "round_double q =
     (if q = 0 then Fin 0
      else let a = \<bar>q\<bar>;
               u = max (ilog2 a - 52) (- 1074);
               v = of_int (rnd_even (a / pow2 u)) * pow2 u
           in if 2 ^ 1024 \<le> v then (if 0 < q then PInf else NInf)
              else Fin (if 0 < q then v else - v))"

fun float_mul :: "pyfloat \<Rightarrow> pyfloat \<Rightarrow> pyfloat" where
  \<comment> \<open>\<open>x * y\<close>\<close>
  "float_mul (Fin a) (Fin b) = round_double (a * b)"
| "float_mul NaN _ = NaN"
| "float_mul _ NaN = NaN"
| "float_mul (Fin a) PInf = (if a = 0 then NaN else if 0 < a then PInf else NInf)"
| "float_mul (Fin a) NInf = (if a = 0 then NaN else if 0 < a then NInf else PInf)"
| "float_mul PInf (Fin b) = (if b = 0 then NaN else if 0 < b then PInf else NInf)"
| "float_mul NInf (Fin b) = (if b = 0 then NaN else if 0 < b then NInf else PInf)"
| "float_mul PInf PInf = PInf"
| "float_mul PInf NInf = NInf"
| "float_mul NInf PInf = NInf"
| "float_mul NInf NInf = PInf"

fun float_less :: "pyfloat \<Rightarrow> pyfloat \<Rightarrow> bool" where
  \<comment> \<open>\<open>x < y\<close>: false as soon as one side is not a number\<close>
  "float_less NaN _ = False"
| "float_less _ NaN = False"
| "float_less (Fin a) (Fin b) = (a < b)"
| "float_less (Fin a) PInf = True"
| "float_less NInf (Fin b) = True"
| "float_less NInf PInf = True"
| "float_less _ _ = False"

fun float_le :: "pyfloat \<Rightarrow> pyfloat \<Rightarrow> bool" where
  \<comment> \<open>\<open>x <= y\<close>\<close>
  "float_le NaN _ = False"
| "float_le _ NaN = False"
| "float_le (Fin a) (Fin b) = (a \<le> b)"
| "float_le _ PInf = True"
| "float_le NInf _ = True"
| "float_le _ _ = False"

datatype exn =
    ValueError
  | OverflowError
  | TypeError
  | HTTPError
  | OtherError
  | RuntimeError int nat
    \<comment> \<open>the \<open>RuntimeError\<close> of \<open>main\<close>; its message is built from \<open>per_day\<close> and
        \<open>len(picks)\<close>, the two arguments\<close>

fun int_of_float :: "pyfloat \<Rightarrow> exn + int" where
  \<comment> \<open>\<open>int(x)\<close>: truncation towards zero\<close>
  "int_of_float (Fin q) = Inr (if 0 \<le> q then \<lfloor>q\<rfloor> else \<lceil>q\<rceil>)"
| "int_of_float NaN = Inl ValueError"
| "int_of_float _ = Inl OverflowError"

subsection \<open>\<open>float(s)\<close>\<close>

definition c_isspace :: "char \<Rightarrow> bool" where
  \<comment> \<open>the whitespace of the C locale, which \<open>float\<close> strips\<close>
  "c_isspace c = (let n = (of_char c :: nat) in (9 \<le> n \<and> n \<le> 13) \<or> n = 32)"

definition to_ascii :: "string \<Rightarrow> string" where
  \<comment> \<open>before parsing, whitespace beyond ASCII becomes a space and every other character
      beyond ASCII (none is a decimal digit in this range) is unreadable\<close>
  "to_ascii s = map (\<lambda>c. if (of_char c :: nat) < 127 then c
                          else if isspace c then CHR '' '' else CHR ''?'') s"

fun drop_underscores :: "char \<Rightarrow> string \<Rightarrow> string option" where
  \<comment> \<open>an underscore is allowed between two digits only; the first argument is the
      character before\<close>
  "drop_underscores prev [] = (if prev = CHR ''_'' then None else Some [])"
| "drop_underscores prev (x # xs) =
     (if x = CHR ''_'' then (if isdecimal prev then drop_underscores x xs else None)
      else if prev = CHR ''_'' \<and> \<not> isdecimal x then None
      else map_option ((#) x) (drop_underscores x xs))"

definition digits_val :: "string \<Rightarrow> int" where
  "digits_val ds = foldl (\<lambda>a c. 10 * a + (of_char c - 48)) 0 ds"

definition take_sign :: "string \<Rightarrow> bool \<times> string" where
  \<comment> \<open>an optional sign: whether it is a minus, and the rest\<close>
  "take_sign s = (case s of [] \<Rightarrow> (False, [])
      | x # xs \<Rightarrow> if x = CHR ''-'' then (True, xs) else if x = CHR ''+'' then (False, xs)
                  else (False, s))"

definition parse_inf_nan :: "string \<Rightarrow> pyfloat option" where
  \<comment> \<open>\<open>inf\<close>, \<open>infinity\<close> and \<open>nan\<close>, in any case, after an optional sign\<close>
  "parse_inf_nan s =
     (let (neg, r) = take_sign s; w = lower r in
      if w = ''inf'' \<or> w = ''infinity'' then Some (if neg then NInf else PInf)
      else if w = ''nan'' then Some NaN
      else None)"

definition parse_decimal :: "string \<Rightarrow> pyfloat option" where
  \<comment> \<open>a sign, digits, a point, digits (one digit at least), and an exponent that counts
      only when it has a digit; the whole input has to be read\<close>
  "parse_decimal s =
     (let (neg, r0) = take_sign s;
          ip = takeWhile isdecimal r0; r1 = dropWhile isdecimal r0;
          (fp, r2) = (case r1 of [] \<Rightarrow> ([], r1)
                      | x # xs \<Rightarrow> if x = CHR ''.'' then (takeWhile isdecimal xs, dropWhile isdecimal xs)
                                  else ([], r1))
      in if ip = [] \<and> fp = [] then None
         else let (ex, r3) =
                (case r2 of [] \<Rightarrow> (0, r2)
                 | x # xs \<Rightarrow>
                     if x = CHR ''e'' \<or> x = CHR ''E'' then
                       (let (eneg, r) = take_sign xs; ed = takeWhile isdecimal r
                        in if ed = [] then (0, r2)
                           else ((if eneg then - digits_val ed else digits_val ed),
                                 dropWhile isdecimal r))
                     else (0, r2));
                  q = of_int (digits_val (ip @ fp)) * pow10 (ex - int (length fp))
              in if r3 = [] then Some (round_double (if neg then - q else q)) else None)"

definition py_float :: "string \<Rightarrow> exn + pyfloat" where
  \<comment> \<open>\<open>float(s)\<close> for a string \<open>s\<close>\<close>
  "py_float s =
     (case (if CHR ''_'' \<in> set (to_ascii s) then drop_underscores (CHR 0x00) (to_ascii s)
            else Some (to_ascii s)) of
        None \<Rightarrow> Inl ValueError
      | Some t \<Rightarrow>
          (let body = rev (dropWhile c_isspace (rev (dropWhile c_isspace t))) in
           case parse_decimal body of
             Some x \<Rightarrow> Inr x
           | None \<Rightarrow> (case parse_inf_nan body of Some x \<Rightarrow> Inr x | None \<Rightarrow> Inl ValueError)))"

section \<open>The field extractor\<close>

definition int_float_times :: "string \<Rightarrow> int \<Rightarrow> exn + int" where
  \<comment> \<open>\<open>int(float(s) * mult)\<close>; \<open>mult\<close> is 1 or 1000, which \<open>float\<close> holds exactly\<close>
  "int_float_times s mult =
     (case py_float s of
        Inl e \<Rightarrow> Inl e
      | Inr x \<Rightarrow> int_of_float (float_mul x (round_double (of_int mult))))"

definition parse_int_like :: "string \<Rightarrow> exn + int option" where
  \<comment> \<open>\<open>Inl\<close> would be an exception that leaves the function; the bare \<open>except\<close> turns
      every exception of \<open>int(float(s) * mult)\<close> into \<open>None\<close>\<close>
  "parse_int_like s0 =
     (let s = replace (replace (lower s0) ''.'' '''') '' '' '''';
          s = replace s '','' ''.'';
          (mult, s) = (if contains ''mil'' s then (1000, replace s ''mil'' '''') else (1, s));
          (mult, s) = (if contains ''k'' s then (1000, replace s ''k'' '''') else (mult, s))
      in case int_float_times s mult of
           Inl e \<Rightarrow> Inr None
         | Inr n \<Rightarrow> Inr (Some n))"

record product =
  title :: string
  url :: string
  price :: string
  sold :: "int option"
  rating :: "pyfloat option"
  reviews :: "int option"

record page =
  \<comment> \<open>what the parsed page gives: \<open>soup.find("title").get_text(strip=True)\<close> when the page
      has a title element, and \<open>soup.get_text(" ", strip=True)\<close>\<close>
  title_tag :: "string option"
  get_text :: string

definition truthy :: "int option \<Rightarrow> bool" where
  \<comment> \<open>the truth value of \<open>None\<close> or an \<open>int\<close>\<close>
  "truthy v = (case v of None \<Rightarrow> False | Some n \<Rightarrow> n \<noteq> 0)"

definition quantity_rx :: rx where
  \<comment> \<open>\<open>(\d+[.,]?\d*)\<close>\<close>
  "quantity_rx =
     Grp 1 (Cat (Plus isdecimal)
           (Cat (Opt (Cls (\<lambda>c. c = CHR ''.'' \<or> c = CHR '','')))
                (Star isdecimal)))"

definition sold_rx :: rx where
  \<comment> \<open>\<open>(\d+[.,]?\d*)\s*(mil|k)?\s*vendid\<close>\<close>
  "sold_rx =
     Cat quantity_rx
    (Cat (Star isspace)
    (Cat (Opt (Grp 2 (Alt (Lit ''mil'') (Lit ''k''))))
    (Cat (Star isspace) (Lit ''vendid''))))"

definition reviews_rx :: rx where
  \<comment> \<open>\<open>(\d+[.,]?\d*)\s*(mil|k)?\s*avalia\<close>\<close>
  "reviews_rx =
     Cat quantity_rx
    (Cat (Star isspace)
    (Cat (Opt (Grp 2 (Alt (Lit ''mil'') (Lit ''k''))))
    (Cat (Star isspace) (Lit ''avalia''))))"

definition rating_rx :: rx where
  \<comment> \<open>\<open>(\d\.\d)\s*de\s*5\<close>\<close>
  "rating_rx =
     Cat (Grp 1 (Cat (Cls isdecimal) (Cat (Lit ''.'') (Cls isdecimal))))
    (Cat (Star isspace)
    (Cat (Lit ''de'')
    (Cat (Star isspace) (Lit ''5''))))"

definition price_rx :: rx where
  \<comment> \<open>\<open>r\$\s*([\d\.]+[,]\d{2})\<close>\<close>
  "price_rx =
     Cat (Lit ''r$'')
    (Cat (Star isspace)
         (Grp 1 (Cat (Plus (\<lambda>c. isdecimal c \<or> c = CHR ''.''))
                (Cat (Lit '','')
                (Cat (Cls isdecimal) (Cls isdecimal))))))"

definition title_suffix_rx :: rx where
  \<comment> \<open>\<open>\s*\|\s*Shopee.*$\<close>; the dot matches everything but a newline\<close>
  "title_suffix_rx =
     Cat (Star isspace)
    (Cat (Lit ''|'')
    (Cat (Star isspace)
    (Cat (Lit ''Shopee'')
    (Cat (Star (\<lambda>c. c \<noteq> CHR 0x0A)) Eol))))"

fun sold_loop :: "(string \<times> caps) list \<Rightarrow> int option \<Rightarrow> exn + int option" where
  \<comment> \<open>lines 110 to 113; the second argument is \<open>sold\<close>\<close>
  "sold_loop [] cur = Inr cur"
| "sold_loop (m # ms) cur =
     (case parse_int_like (replace (replace (fst m) ''vendidos'' '''') ''vendido'' '''') of
        Inl e \<Rightarrow> Inl e
      | Inr sold' \<Rightarrow> if truthy sold' then Inr sold' else sold_loop ms sold')"

fun reviews_loop :: "(string \<times> caps) list \<Rightarrow> int option \<Rightarrow> exn + int option" where
  \<comment> \<open>lines 126 to 129; the second argument is \<open>reviews\<close>\<close>
  "reviews_loop [] cur = Inr cur"
| "reviews_loop (m # ms) cur =
     (case parse_int_like
             (replace (replace (fst m) (''avalia'' @ [CHR 0xE7, CHR 0xF5] @ ''es'') '''')
                (''avalia'' @ [CHR 0xE7, CHR 0xE3] @ ''o'') '''') of
        Inl e \<Rightarrow> Inl e
      | Inr reviews' \<Rightarrow> if truthy reviews' then Inr reviews' else reviews_loop ms reviews')"

definition rating_of :: "string \<Rightarrow> pyfloat option" where
  \<comment> \<open>lines 116 to 122; a group that took no part in the match is \<open>None\<close>, and
      \<open>float(None)\<close> raises\<close>
  "rating_of page_text =
     (case rx_search rating_rx page_text of
        None \<Rightarrow> None
      | Some (g0, c) \<Rightarrow>
          (case (case c 1 of None \<Rightarrow> Inl TypeError | Some g1 \<Rightarrow> py_float g1) of
             Inl e \<Rightarrow> None
           | Inr x \<Rightarrow> Some x))"

definition price_of :: "string \<Rightarrow> string option" where
  \<comment> \<open>lines 132 to 135\<close>
  "price_of page_text =
     (case rx_search price_rx page_text of
        None \<Rightarrow> None
      | Some (g0, c) \<Rightarrow>
          (case c 1 of None \<Rightarrow> None | Some g1 \<Rightarrow> Some (''R$ '' @ replace g1 ''.'' '''')))"

definition shopee_product_details :: "string \<Rightarrow> page \<Rightarrow> exn + product" where
  \<comment> \<open>from line 103 on: the page has been fetched and parsed\<close>
  "shopee_product_details u pg =
     (let title0 = (case title_tag pg of Some t \<Rightarrow> t | None \<Rightarrow> '''');
          title1 = strip (rx_sub title_suffix_rx '''' 0 title0);
          page_text = lower (get_text pg)
      in case sold_loop (rx_finditer sold_rx 0 page_text) None of
           Inl e \<Rightarrow> Inl e
         | Inr sold1 \<Rightarrow>
             (case reviews_loop (rx_finditer reviews_rx 0 page_text) None of
                Inl e \<Rightarrow> Inl e
              | Inr reviews1 \<Rightarrow>
                  Inr \<lparr> title = (if title1 \<noteq> [] then title1 else ''Produto Shopee''),
                        url = u,
                        price = (case price_of page_text of Some p \<Rightarrow> p | None \<Rightarrow> ''R$ --''),
                        sold = sold1,
                        rating = rating_of page_text,
                        reviews = reviews1 \<rparr>))"

section \<open>The daily run\<close>

record candidate = product +
  \<comment> \<open>the keys \<open>main\<close> adds to a product it keeps; \<open>sim_key\<close> is the key
      \<open>"similarity_key"\<close>\<close>
  category :: string
  product_id :: string
  sim_key :: string

record config =
  \<comment> \<open>the environment variables \<open>main\<close> reads\<close>
  total_days :: int
  per_day :: int
  categories :: "string list"
  sold_min :: int
  rating_min :: pyfloat

record state =
  \<comment> \<open>\<open>state.json\<close>; the two lists are read into sets and written back from sets, in no
      fixed order\<close>
  day_index :: int
  used_product_ids :: "string set"
  used_similarity_keys :: "string set"

record world =
  \<comment> \<open>what lies outside the program during one run: the answer of the \<open>n\<close>-th call of
      \<open>shopee_search\<close> to a query, the text \<open>generate_copy\<close> returns for a pick, and
      whether writing the rows (to the sheet or to the file of the day) raises\<close>
  shopee_search :: "nat \<Rightarrow> string \<Rightarrow> exn + product list"
  generate_copy :: "candidate \<Rightarrow> exn + string"
  write_out :: "int \<Rightarrow> (candidate \<times> string) list \<Rightarrow> exn option"

datatype outcome =
    Finished
    \<comment> \<open>the project is over: a notice is printed, nothing else happens\<close>
  | Picked "candidate list"
    \<comment> \<open>the run went through; these are its picks\<close>
  | Raised exn

definition annotate :: "string \<Rightarrow> product \<Rightarrow> candidate" where
  \<comment> \<open>lines 278, 281 and 285 to 287\<close>
  "annotate cat p =
     \<lparr> title = title p, url = url p, price = price p, sold = sold p, rating = rating p,
       reviews = reviews p,
       category = cat, product_id = url p, sim_key = similarity_key cat (title p) \<rparr>"

fun make_candidates ::
  "config \<Rightarrow> string set \<Rightarrow> string set \<Rightarrow> string \<Rightarrow> product list \<Rightarrow> candidate list" where
  \<comment> \<open>lines 272 to 288\<close>
  "make_candidates cfg used_ids used_keys cat [] = []"
| "make_candidates cfg used_ids used_keys cat (p # ps) =
     (if \<not> truthy (sold p) \<or> (case sold p of Some n \<Rightarrow> n < sold_min cfg | None \<Rightarrow> False)
      then make_candidates cfg used_ids used_keys cat ps
      else if (case rating p of Some r \<Rightarrow> float_less r (rating_min cfg) | None \<Rightarrow> False)
      then make_candidates cfg used_ids used_keys cat ps
      else if url p \<in> used_ids
      then make_candidates cfg used_ids used_keys cat ps
      else if similarity_key cat (title p) \<in> used_keys
      then make_candidates cfg used_ids used_keys cat ps
      else annotate cat p # make_candidates cfg used_ids used_keys cat ps)"

definition sort_by_sold :: "candidate list \<Rightarrow> candidate list" where
  \<comment> \<open>line 291: a stable sort, highest \<open>sold\<close> first\<close>
  "sort_by_sold cs = sort_key (\<lambda>x. - (case sold x of Some n \<Rightarrow> n | None \<Rightarrow> 0)) cs"

fun pick_loop :: "int \<Rightarrow> candidate list \<Rightarrow> candidate list \<Rightarrow> candidate list" where
  \<comment> \<open>lines 293 to 299; the last argument is \<open>picks\<close>\<close>
  "pick_loop n [] picks = picks"
| "pick_loop n (cand # cs) picks =
     (if n \<le> int (length picks) then picks
      else if list_ex (\<lambda>c. sim_key c = sim_key cand) picks then pick_loop n cs picks
      else pick_loop n cs (picks @ [cand]))"

fun category_loop ::
  "config \<Rightarrow> world \<Rightarrow> string set \<Rightarrow> string set \<Rightarrow> nat \<Rightarrow> string list \<Rightarrow> candidate list
     \<Rightarrow> exn + candidate list" where
  \<comment> \<open>lines 265 to 299; \<open>i\<close> counts the searches made, the last argument is \<open>picks\<close>\<close>
  "category_loop cfg w used_ids used_keys i [] picks = Inr picks"
| "category_loop cfg w used_ids used_keys i (cat # cats) picks =
     (if per_day cfg \<le> int (length picks) then Inr picks
      else case shopee_search w i (cat @ '' shopee'') of
             Inl e \<Rightarrow> Inl e
           | Inr results \<Rightarrow>
               category_loop cfg w used_ids used_keys (i + 1) cats
                 (pick_loop (per_day cfg)
                    (sort_by_sold (make_candidates cfg used_ids used_keys cat results)) picks))"

fun output_loop ::
  "world \<Rightarrow> candidate list \<Rightarrow> (candidate \<times> string) list \<times> string set \<times> string set
     \<Rightarrow> exn + (candidate \<times> string) list \<times> string set \<times> string set" where
  \<comment> \<open>lines 307 to 333: the texts written so far, \<open>used_ids\<close> and \<open>used_keys\<close>\<close>
  "output_loop w [] acc = Inr acc"
| "output_loop w (p # ps) (outputs, used_ids, used_keys) =
     (case generate_copy w p of
        Inl e \<Rightarrow> Inl e
      | Inr content \<Rightarrow>
          output_loop w ps
            (outputs @ [(p, content)], insert (product_id p) used_ids, insert (sim_key p) used_keys))"

definition main :: "config \<Rightarrow> world \<Rightarrow> state \<Rightarrow> outcome \<times> state" where
  \<comment> \<open>one run: what it ends with, and \<open>state.json\<close> after it\<close>
  "main cfg w st =
     (let day = day_index st + 1 in
      if total_days cfg < day then (Finished, st)
      else
        case category_loop cfg w (used_product_ids st) (used_similarity_keys st) 0
               (categories cfg) [] of
          Inl e \<Rightarrow> (Raised e, st)
        | Inr picks \<Rightarrow>
            if int (length picks) < per_day cfg
            then (Raised (RuntimeError (per_day cfg) (length picks)), st)
            else
              (case output_loop w picks ([], used_product_ids st, used_similarity_keys st) of
                 Inl e \<Rightarrow> (Raised e, st)
               | Inr (outputs, used_ids, used_keys) \<Rightarrow>
                   (case write_out w day outputs of
                      Some e \<Rightarrow> (Raised e, st)
                    | None \<Rightarrow>
                        (Picked picks,
                         \<lparr> day_index = day, used_product_ids = used_ids,
                           used_similarity_keys = used_keys \<rparr>))))"

fun run_all :: "state \<Rightarrow> (config \<times> world) list \<Rightarrow> outcome list" where
  \<comment> \<open>runs one after the other on the same \<open>state.json\<close>\<close>
  "run_all st [] = []"
| "run_all st ((cfg, w) # rs) = fst (main cfg w st) # run_all (snd (main cfg w st)) rs"

section \<open>Scenarios\<close>

text \<open>
  The end-to-end scenario of the specification (category Pets, \<open>sold_min = 100\<close>,
  \<open>rating_min = 4.5\<close>, candidates that sold 50, 150 and 300), with two more listings: one
  that repeats the title of the best seller under another address and has no rating, and
  one with a title of its own.
\<close>

definition ex_product :: "string \<Rightarrow> string \<Rightarrow> int option \<Rightarrow> pyfloat option \<Rightarrow> product" where
  "ex_product t u s r =
     \<lparr> title = t, url = u, price = ''R$ --'', sold = s, rating = r, reviews = None \<rparr>"

definition ex_results :: "product list" where
  "ex_results =
     [ex_product ''Arranhador Gato'' ''u1'' (Some 50) (Some (Fin (39 / 8))),
      ex_product ''Coleira Cachorro'' ''u2'' (Some 150) (Some (Fin 4)),
      ex_product ''Cama Gato'' ''u3'' (Some 300) (Some (Fin (19 / 4))),
      ex_product ''Cama Gato!'' ''u4'' (Some 200) None,
      ex_product ''Bola Cachorro'' ''u5'' (Some 120) None,
      ex_product ''Pote Gato'' ''u6'' None (Some (Fin 5)),
      ex_product ''Tapete Gato'' ''u7'' (Some 0) None]"

definition ex_config :: "int \<Rightarrow> int \<Rightarrow> config" where
  "ex_config n smin =
     \<lparr> total_days = 30, per_day = n, categories = [''Pets''], sold_min = smin,
       rating_min = Fin (9 / 2) \<rparr>"

definition ex_world :: world where
  "ex_world =
     \<lparr> shopee_search = (\<lambda>i q. Inr ex_results),
       generate_copy = (\<lambda>c. Inr ''texto''),
       write_out = (\<lambda>d outs. None) \<rparr>"

definition ex_state :: state where
  "ex_state = \<lparr> day_index = 0, used_product_ids = {}, used_similarity_keys = {} \<rparr>"

section \<open>Rounding\<close>

lemma pow2_powi: "pow2 e = 2 powi e"
  by (simp add: pow2_def power_int_def field_simps)

lemma pow2_pos [simp]: "0 < pow2 e"
  by (simp add: pow2_powi)

lemma pow2_mono: "a \<le> b \<Longrightarrow> pow2 a \<le> pow2 b"
  by (simp add: pow2_powi power_int_increasing)

lemma pow2_strict_mono: "a < b \<Longrightarrow> pow2 a < pow2 b"
  by (simp add: pow2_powi power_int_strict_increasing)

lemma pow2_diff: "pow2 a / pow2 b = pow2 (a - b)"
  by (simp add: pow2_powi power_int_diff)

lemma pow2_nat: "pow2 (int n) = 2 ^ n"
  by (simp add: pow2_def)

lemma ilog2_bounds:
  assumes "0 < q"
  shows "pow2 (ilog2 q) \<le> q \<and> q < pow2 (ilog2 q + 1)"
proof -
  obtain a b where ab: "quotient_of q = (a, b)" by (cases "quotient_of q")
  then have b: "0 < b" by (rule quotient_of_denom_pos)
  have q: "q = of_int a / of_int b" using ab by (rule quotient_of_div)
  with assms b have a: "0 < a" by (simp add: zero_less_divide_iff)
  let ?e = "bitlen a - bitlen b"
  have ba: "0 < bitlen a" "0 < bitlen b"
  proof -
    have "0 < x \<Longrightarrow> 0 < bitlen x" for x
    proof (rule ccontr)
      assume x: "0 < x" and "\<not> 0 < bitlen x"
      then have "nat (bitlen x) = 0" by simp
      with bitlen_bounds [OF x] x show False by simp
    qed
    with a b show "0 < bitlen a" "0 < bitlen b" by simp_all
  qed
  have bl: "pow2 (bitlen x - 1) \<le> of_int x \<and> (of_int x :: rat) < pow2 (bitlen x)"
    if x: "0 < x" and p: "0 < bitlen x" for x
  proof -
    from bitlen_bounds [OF x] have 1: "2 ^ nat (bitlen x - 1) \<le> x" and 2: "x < 2 ^ nat (bitlen x)"
      by simp_all
    from 1 have "(of_int (2 ^ nat (bitlen x - 1)) :: rat) \<le> of_int x" by (simp only: of_int_le_iff)
    moreover from 2 have "(of_int x :: rat) < of_int (2 ^ nat (bitlen x))" by (simp only: of_int_less_iff)
    ultimately show ?thesis using p by (simp add: pow2_def)
  qed
  have la: "pow2 (bitlen a - 1) \<le> of_int a" and ua: "(of_int a :: rat) < pow2 (bitlen a)"
    using bl [OF a ba(1)] by simp_all
  have lb: "pow2 (bitlen b - 1) \<le> of_int b" and ub: "(of_int b :: rat) < pow2 (bitlen b)"
    using bl [OF b ba(2)] by simp_all
  have bpos: "(0::rat) < of_int b" using b by simp
  have lo: "pow2 (?e - 1) < q"
  proof -
    have "bitlen a - bitlen b - 1 = bitlen a - 1 - bitlen b" by simp
    then have "pow2 (?e - 1) = pow2 (bitlen a - 1) / pow2 (bitlen b)" by (simp only: pow2_diff)
    also have "\<dots> \<le> of_int a / pow2 (bitlen b)" by (intro divide_right_mono la) (simp add: less_imp_le)
    also have "\<dots> < of_int a / of_int b" by (intro divide_strict_left_mono ub mult_pos_pos pow2_pos bpos) (simp add: a)
    finally show ?thesis using q by simp
  qed
  have hi: "q < pow2 (?e + 1)"
  proof -
    have "q = of_int a / of_int b" by (rule q)
    also have "\<dots> < pow2 (bitlen a) / of_int b" by (intro divide_strict_right_mono ua bpos)
    also have "\<dots> \<le> pow2 (bitlen a) / pow2 (bitlen b - 1)" by (intro divide_left_mono lb mult_pos_pos pow2_pos bpos) (simp add: less_imp_le)
    also have "\<dots> = pow2 (?e + 1)"
    proof -
      have "bitlen a - (bitlen b - 1) = bitlen a - bitlen b + 1" by simp
      then show ?thesis by (simp only: pow2_diff)
    qed
    finally show ?thesis .
  qed
  show ?thesis
  proof (cases "pow2 ?e \<le> q")
    case True
    then have "ilog2 q = ?e" using ab by (simp add: ilog2_def)
    with True hi show ?thesis by simp
  next
    case False
    then have "ilog2 q = ?e - 1" using ab by (simp add: ilog2_def)
    with False lo show ?thesis by simp
  qed
qed

lemma ilog2_unique:
  assumes "0 < q" "pow2 e \<le> q" "q < pow2 (e + 1)"
  shows "ilog2 q = e"
proof (rule ccontr)
  assume n: "ilog2 q \<noteq> e"
  from ilog2_bounds [OF assms(1)] have b: "pow2 (ilog2 q) \<le> q" "q < pow2 (ilog2 q + 1)" by simp_all
  from n consider "ilog2 q + 1 \<le> e" | "e + 1 \<le> ilog2 q" by linarith
  then show False
  proof cases
    case 1
    from pow2_mono [OF 1] b(2) assms(2) show False by simp
  next
    case 2
    from pow2_mono [OF 2] b(1) assms(3) show False by simp
  qed
qed

lemma round_double_eval:
  assumes "0 < q" "pow2 e \<le> q" "q < pow2 (e + 1)"
  shows "round_double q =
     (let u = max (e - 52) (- 1074); v = of_int (rnd_even (q / pow2 u)) * pow2 u
      in if 2 ^ 1024 \<le> v then PInf else Fin v)"
  using assms(1) ilog2_unique [OF assms] by (simp add: round_double_def Let_def)

lemma floor_rat_numeral [simp]: "\<lfloor>(numeral a :: rat) / numeral b\<rfloor> = numeral a div numeral b"
  by (metis floor_divide_of_int_eq of_int_numeral)

section \<open>The quantity parser\<close>

lemmas str_defs = replace_def lower_def lower_char_def isspace_def isdecimal_def c_isspace_def
  to_ascii_def take_sign_def digits_val_def pow10_def parse_decimal_def parse_inf_nan_def
  py_float_def int_float_times_def parse_int_like_def Let_def

lemmas rnd_defs = pow2_def rnd_even_def Let_def

lemma rd_1000: "round_double 1000 = Fin 1000"
  by (subst round_double_eval [where e=9]) (simp_all add: rnd_defs)

lemma rd_1_2: "round_double (6 / 5) = Fin (5404319552844595 / 4503599627370496)"
  by (subst round_double_eval [where e=0]) (simp_all add: rnd_defs)

lemma rd_1200: "round_double (675539944105574375 / 562949953421312) = Fin 1200"
  by (subst round_double_eval [where e=10]) (simp_all add: rnd_defs)

lemma rd_78_7: "round_double (787 / 10) = Fin (5538020166782157 / 70368744177664)"
  by (subst round_double_eval [where e=6]) (simp_all add: rnd_defs)

lemma rd_78700: "round_double (692252520847769625 / 8796093022208) = Fin 78700"
  by (subst round_double_eval [where e=16]) (simp_all add: rnd_defs)

lemma parse_int_like_1_2k: "parse_int_like ''1,2k'' = Inr (Some 1200)"
  by (simp add: str_defs rd_1000 rd_1_2 rd_1200)

lemma parse_int_like_78_7_mil: "parse_int_like ''78,7 mil'' = Inr (Some 78700)"
  by (simp add: str_defs rd_1000 rd_78_7 rd_78700)

lemma parse_int_like_garbage: "parse_int_like ''garbage'' = Inr None"
  by (simp add: str_defs)

lemma parse_int_like_returns: "\<exists>r. parse_int_like s = Inr r"
  by (simp add: parse_int_like_def Let_def split: prod.splits sum.splits)

text \<open>
  Claim C8. \<open>parse_int_like("1,2k")\<close> is 1200, \<open>parse_int_like("78,7 mil")\<close> is 78700,
  \<open>parse_int_like("garbage")\<close> is absent, and no input string makes the function raise:
  it always returns (\<open>Inr\<close>), an integer or \<open>None\<close>.
\<close>

theorem parse_int_like_spec:
  "parse_int_like ''1,2k'' = Inr (Some 1200) \<and>
   parse_int_like ''78,7 mil'' = Inr (Some 78700) \<and>
   parse_int_like ''garbage'' = Inr None \<and>
   (\<forall>s. \<exists>r. parse_int_like s = Inr r)"
  using parse_int_like_1_2k parse_int_like_78_7_mil parse_int_like_garbage parse_int_like_returns
  by blast

section \<open>The text normalizer\<close>

lemma of_char_char_of: "n < 256 \<Longrightarrow> (of_char (char_of (n::nat)) :: nat) = n"
  by (simp add: of_char_of)

lemma lower_char_space [simp]: "lower_char (CHR '' '') = CHR '' ''"
  by (simp add: lower_char_def)

lemma rx_sub_skip: "rx_sub r rep k s = rx_sub r rep 0 (drop k s)"
proof (induction s arbitrary: k)
  case Nil
  then show ?case by simp
next
  case (Cons x xs)
  show ?case
  proof (cases k)
    case 0
    then show ?thesis by simp
  next
    case (Suc k')
    then show ?thesis using Cons [of k'] by simp
  qed
qed

lemma rx_match_Cls:
  "rx_match (Cls p) (x # xs) = (if p x then Some ([x], Map.empty) else None)"
  by (simp add: rx_match_def)

lemma rx_sub_Cls: "rx_sub (Cls p) [c] 0 s = map (\<lambda>x. if p x then c else x) s"
  by (induction s) (simp_all add: rx_match_Cls)

lemma star_m_ne [simp]: "star_m p s \<noteq> []"
  by (induction s) auto

lemma star_m_hd: "star_m p s = dropWhile p s # tl (star_m p s)"
proof -
  have "hd (star_m p s) = dropWhile p s"
    by (induction s) auto
  then show ?thesis by (metis list.collapse star_m_ne)
qed

lemma rx_match_Plus:
  "rx_match (Plus p) (x # xs) = (if p x then Some (x # takeWhile p xs, Map.empty) else None)"
proof (cases "p x")
  case True
  have l: "length xs - length (dropWhile p xs) = length (takeWhile p xs)"
    by (metis add_diff_cancel_right' length_append takeWhile_dropWhile_id)
  have "take (length (takeWhile p xs)) xs = takeWhile p xs"
    by (metis append_eq_conv_conj takeWhile_dropWhile_id)
  moreover obtain rest where "star_m p xs = dropWhile p xs # rest"
    using star_m_hd by blast
  ultimately show ?thesis using True l
    by (simp add: rx_match_def Suc_diff_le length_dropWhile_le)
next
  case False
  then show ?thesis by (simp add: rx_match_def)
qed

lemma collapse_Cons:
  "rx_sub (Plus p) rep 0 (x # xs) =
     (if p x then rep @ rx_sub (Plus p) rep 0 (dropWhile p xs) else x # rx_sub (Plus p) rep 0 xs)"
  by (simp add: rx_match_Plus rx_sub_skip [of _ _ "length (takeWhile p xs)"] dropWhile_eq_drop)

lemma collapse_set:
  "set (rx_sub (Plus isspace) '' '' 0 s) \<subseteq> insert (CHR '' '') (set s)"
proof (induction "length s" arbitrary: s rule: less_induct)
  case less
  show ?case
  proof (cases s)
    case Nil
    then show ?thesis by simp
  next
    case (Cons x xs)
    have 1: "set (rx_sub (Plus isspace) '' '' 0 (dropWhile isspace xs))
        \<subseteq> insert (CHR '' '') (set (dropWhile isspace xs))"
      using less [of "dropWhile isspace xs"] Cons by (simp add: length_dropWhile_le le_imp_less_Suc)
    have 2: "set (rx_sub (Plus isspace) '' '' 0 xs) \<subseteq> insert (CHR '' '') (set xs)"
      using less [of xs] Cons by simp
    have "set (dropWhile isspace xs) \<subseteq> set xs" by (auto dest: set_dropWhileD)
    with 1 2 Cons show ?thesis by (auto simp: collapse_Cons simp del: rx_sub.simps)
  qed
qed

lemma collapse_tidy: "tidy (rx_sub (Plus isspace) '' '' 0 s)"
proof (induction "length s" arbitrary: s rule: less_induct)
  case less
  show ?case
  proof (cases s)
    case Nil
    then show ?thesis by simp
  next
    case (Cons x xs)
    show ?thesis
    proof (cases "isspace x")
      case True
      let ?r = "dropWhile isspace xs"
      have t: "tidy (rx_sub (Plus isspace) '' '' 0 ?r)"
        using less [of ?r] Cons by (simp add: length_dropWhile_le le_imp_less_Suc)
      have u: "rx_sub (Plus isspace) '' '' 0 s = CHR '' '' # rx_sub (Plus isspace) '' '' 0 ?r"
        using True \<open>s = x # xs\<close> by (simp add: collapse_Cons del: rx_sub.simps)
      show ?thesis
      proof (cases "rx_sub (Plus isspace) '' '' 0 ?r")
        case Nil
        with u show ?thesis by simp
      next
        case (Cons y ys)
        have "set (rx_sub (Plus isspace) '' '' 0 ?r) \<subseteq> insert (CHR '' '') (set ?r)"
          by (rule collapse_set)
        moreover have "hd (rx_sub (Plus isspace) '' '' 0 ?r) = hd ?r \<and> ?r \<noteq> []"
        proof (cases ?r)
          case Nil
          with Cons show ?thesis by simp
        next
          case (Cons z zs)
          then have "\<not> isspace z" by (metis dropWhile_eq_Cons_conv)
          with Cons show ?thesis by (simp add: collapse_Cons del: rx_sub.simps)
        qed
        moreover have "\<not> isspace (hd ?r)" if "?r \<noteq> []" using that by (rule hd_dropWhile)
        ultimately have "\<not> isspace y" using Cons by auto
        with t u Cons show ?thesis by simp
      qed
    next
      case False
      have t: "tidy (rx_sub (Plus isspace) '' '' 0 xs)" using less [of xs] Cons by simp
      with False Cons show ?thesis
        by (cases "rx_sub (Plus isspace) '' '' 0 xs") (simp_all add: collapse_Cons del: rx_sub.simps)
    qed
  qed
qed

lemma collapse_fix: "tidy s \<Longrightarrow> rx_sub (Plus isspace) '' '' 0 s = s"
proof (induction s rule: tidy.induct)
  case 1
  then show ?case by simp
next
  case (2 x)
  then show ?case by (simp add: collapse_Cons del: rx_sub.simps(2))
next
  case (3 x y zs)
  then show ?case by (auto simp: collapse_Cons simp del: rx_sub.simps(2))
qed

lemma tidy_suffix: "tidy (xs @ ys) \<Longrightarrow> tidy ys"
proof (induction xs)
  case Nil
  then show ?case by simp
next
  case (Cons x xs)
  then show ?case by (cases "xs @ ys") auto
qed

lemma tidy_prefix: "tidy (xs @ ys) \<Longrightarrow> tidy xs"
proof (induction xs rule: tidy.induct)
  case 1
  then show ?case by simp
next
  case (2 x)
  then show ?case by (cases ys) auto
next
  case (3 x y zs)
  then show ?case by auto
qed

lemma strip_decomp: "\<exists>a b. s = a @ strip s @ b"
proof -
  let ?d = "dropWhile isspace s"
  have "rev (strip s) = dropWhile isspace (rev ?d)" by (simp add: strip_def)
  then have "rev ?d = takeWhile isspace (rev ?d) @ rev (strip s)" by simp
  then have "rev (rev ?d) = rev (takeWhile isspace (rev ?d) @ rev (strip s))" by (rule arg_cong)
  then have "?d = strip s @ rev (takeWhile isspace (rev ?d))" by simp
  then have "s = takeWhile isspace s @ strip s @ rev (takeWhile isspace (rev ?d))"
    by (metis takeWhile_dropWhile_id)
  then show ?thesis by blast
qed

lemma tidy_strip: "tidy s \<Longrightarrow> tidy (strip s)"
proof -
  assume t: "tidy s"
  obtain a b where "s = a @ strip s @ b" using strip_decomp by blast
  with t have "tidy (a @ strip s @ b)" by simp
  then have "tidy (strip s @ b)" by (rule tidy_suffix)
  then show ?thesis by (rule tidy_prefix)
qed

lemma strip_ends:
  "strip s = [] \<or> (\<not> isspace (hd (strip s)) \<and> \<not> isspace (last (strip s)))"
proof (cases "strip s = []")
  case True
  then show ?thesis by simp
next
  case False
  let ?d = "dropWhile isspace s"
  let ?e = "dropWhile isspace (rev ?d)"
  from False have e: "?e \<noteq> []" by (simp add: strip_def)
  then have "\<not> isspace (hd ?e)" by (metis hd_dropWhile)
  then have l: "\<not> isspace (last (strip s))" using e by (simp add: strip_def last_rev)
  have d: "?d \<noteq> []"
  proof
    assume "?d = []"
    then have "?e = []" by (simp only: rev.simps(1) dropWhile.simps(1))
    with e show False by simp
  qed
  then have hd: "\<not> isspace (hd ?d)" by (metis hd_dropWhile)
  have "\<exists>t. ?d = strip s @ t"
  proof -
    have "rev (strip s) = ?e" by (simp add: strip_def)
    then have "rev ?d = takeWhile isspace (rev ?d) @ rev (strip s)" by simp
    then have "rev (rev ?d) = rev (takeWhile isspace (rev ?d) @ rev (strip s))" by (rule arg_cong)
    then have "?d = strip s @ rev (takeWhile isspace (rev ?d))" by simp
    then show ?thesis by blast
  qed
  then obtain t where "?d = strip s @ t" ..
  with False have "hd ?d = hd (strip s)" by (metis hd_append2)
  with hd l show ?thesis by simp
qed

lemma strip_fix: "s = [] \<or> (\<not> isspace (hd s) \<and> \<not> isspace (last s)) \<Longrightarrow> strip s = s"
proof (cases s)
  case Nil
  then show ?thesis by (simp add: strip_def)
next
  case (Cons x xs)
  assume "s = [] \<or> (\<not> isspace (hd s) \<and> \<not> isspace (last s))"
  with Cons have h: "\<not> isspace x" and l: "\<not> isspace (last s)" by auto
  from h Cons have 1: "dropWhile isspace s = s" by simp
  from Cons have ne: "s \<noteq> []" by simp
  then have "hd (rev s) = last s" by (simp add: hd_rev)
  with l have "\<not> isspace (hd (rev s))" by simp
  moreover from ne have "rev s \<noteq> []" by simp
  ultimately have "dropWhile isspace (rev s) = rev s" by (cases "rev s") auto
  with 1 show ?thesis by (simp add: strip_def)
qed

lemma lower_char_idem [simp]: "lower_char (lower_char c) = lower_char c"
proof -
  define n where "n = (of_char c :: nat)"
  show ?thesis
  proof (cases "(65 \<le> n \<and> n \<le> 90) \<or> (192 \<le> n \<and> n \<le> 222 \<and> n \<noteq> 215)")
    case True
    then have l: "lower_char c = char_of (n + 32)" by (simp add: lower_char_def n_def)
    from True have "(n + 32) mod 256 = n + 32" by auto
    then have m: "(of_char (char_of (n + 32)) :: nat) = n + 32" by (simp add: of_char_of)
    from True have f: "\<not> ((65 \<le> n + 32 \<and> n + 32 \<le> 90) \<or>
       (192 \<le> n + 32 \<and> n + 32 \<le> 222 \<and> n + 32 \<noteq> 215))"
      by auto
    have "lower_char (char_of (n + 32)) = char_of (n + 32)"
      by (simp only: lower_char_def Let_def m f if_False)
    with l show ?thesis by simp
  next
    case False
    then have "lower_char c = c" by (auto simp: lower_char_def n_def Let_def)
    then show ?thesis by simp
  qed
qed

lemma isspace_space [simp]: "isspace (CHR '' '')"
  by (simp add: isspace_def)

lemma tidy_space: "tidy s \<Longrightarrow> c \<in> set s \<Longrightarrow> isspace c \<Longrightarrow> c = CHR '' ''"
  by (induction s rule: tidy.induct) auto

lemma tidy_no_double: "tidy s \<Longrightarrow> \<not> contains ''  '' s"
  by (induction s rule: tidy.induct) auto

lemma set_strip: "set (strip s) \<subseteq> set s"
proof -
  obtain a b where "s = a @ strip s @ b" using strip_decomp by blast
  then have "set s = set a \<union> set (strip s) \<union> set b" by (metis set_append Un_assoc)
  then show ?thesis by auto
qed

lemma alnum_not_punct: "isalnum c \<Longrightarrow> \<not> ispunct c"
  by (simp add: isalnum_def ispunct_def Let_def) arith

lemma normalize_text_chars:
  assumes "c \<in> set (normalize_text x)"
  shows "lower_char c = c \<and> (isword c \<or> c = CHR '' '')"
proof -
  define f where "f = (\<lambda>c. if \<not> (isword c \<or> isspace c) then CHR '' '' else c)"
  define t where "t = map f (lower x)"
  have n: "normalize_text x = strip (rx_sub (Plus isspace) '' '' 0 t)"
    by (simp add: normalize_text_def rx_sub_Cls t_def f_def)
  have t: "lower_char d = d \<and> (isword d \<or> isspace d)" if "d \<in> set t" for d
  proof -
    from that obtain e where d: "d = f (lower_char e)" by (auto simp: t_def lower_def)
    show ?thesis
    proof (cases "isword (lower_char e) \<or> isspace (lower_char e)")
      case True
      then have "d = lower_char e" unfolding d f_def by auto
      with True show ?thesis by simp
    next
      case False
      then have "d = CHR '' ''" unfolding d f_def by auto
      then show ?thesis by simp
    qed
  qed
  have s1: "set (strip (rx_sub (Plus isspace) '' '' 0 t)) \<subseteq> set (rx_sub (Plus isspace) '' '' 0 t)"
    by (rule set_strip)
  have s2: "set (rx_sub (Plus isspace) '' '' 0 t) \<subseteq> insert (CHR '' '') (set t)"
    by (rule collapse_set)
  from assms s1 s2 have "c = CHR '' '' \<or> c \<in> set t" unfolding n by blast
  with t have 1: "lower_char c = c \<and> (isword c \<or> isspace c)" by auto
  have "tidy (normalize_text x)" unfolding n by (intro tidy_strip collapse_tidy)
  from tidy_space [OF this assms] 1 show ?thesis by auto
qed

lemma normalize_text_tidy: "tidy (normalize_text x)"
  by (simp add: normalize_text_def Let_def tidy_strip collapse_tidy)

lemma normalize_text_strip: "strip (normalize_text x) = normalize_text x"
proof -
  have "normalize_text x = strip (rx_sub (Plus isspace) '' '' 0
     (rx_sub (Cls (\<lambda>c. \<not> (isword c \<or> isspace c))) '' '' 0 (lower x)))"
    by (simp add: normalize_text_def)
  then show ?thesis by (simp only: strip_fix [OF strip_ends])
qed

lemma normalize_text_fix:
  assumes "\<forall>c \<in> set y. lower_char c = c \<and> (isword c \<or> c = CHR '' '')" "tidy y" "strip y = y"
  shows "normalize_text y = y"
proof -
  have 1: "lower y = y" using assms(1) by (simp add: lower_def map_idI)
  have 2: "rx_sub (Cls (\<lambda>c. \<not> (isword c \<or> isspace c))) '' '' 0 y = y"
    unfolding rx_sub_Cls using assms(1) by (intro map_idI) auto
  show ?thesis unfolding normalize_text_def Let_def 1 2 by (simp only: collapse_fix assms)
qed

text \<open>
  Claim C9, amended. \<open>normalize_text\<close> is a total function on strings. Its result is
  lower case; it holds letters, digits, underscores and single spaces only, so every
  punctuation mark and symbol but the underscore is gone; no two spaces are neighbours and
  none stands at an end; and normalizing a normalized string changes nothing. (As stated,
  with all punctuation stripped, the claim fails: the underscore belongs to the class
  \<open>\w\<close> and stays, see \<open>normalize_text_underscore\<close>.)
\<close>

theorem normalize_text_idempotent:
  "normalize_text (normalize_text x) = normalize_text x \<and>
   (\<forall>c \<in> set (normalize_text x).
      lower_char c = c \<and> (isword c \<or> c = CHR '' '') \<and> (ispunct c \<longrightarrow> c = CHR ''_'')) \<and>
   \<not> contains ''  '' (normalize_text x) \<and>
   strip (normalize_text x) = normalize_text x"
proof (intro conjI ballI)
  show "normalize_text (normalize_text x) = normalize_text x"
    using normalize_text_chars [of _ x] normalize_text_tidy [of x] normalize_text_strip [of x]
    by (intro normalize_text_fix) auto
  show "\<not> contains ''  '' (normalize_text x)"
    using normalize_text_tidy by (rule tidy_no_double)
  show "strip (normalize_text x) = normalize_text x" by (rule normalize_text_strip)
next
  fix c assume c: "c \<in> set (normalize_text x)"
  from normalize_text_chars [OF c] show "lower_char c = c" by simp
  from normalize_text_chars [OF c] show w: "isword c \<or> c = CHR '' ''" by simp
  show "ispunct c \<longrightarrow> c = CHR ''_''"
    using w alnum_not_punct [of c] by (auto simp: isword_def ispunct_def)
qed

theorem normalize_text_underscore: "normalize_text ''a_b'' = ''a_b'' \<and> ispunct (CHR ''_'')"
  by (simp add: normalize_text_def lower_def lower_char_def strip_def isword_def isalnum_def
      isspace_def rx_match_def ispunct_def)

theorem normalize_text_idempotent_witness:
  "normalize_text (''Kit-Promo'' @ [CHR 0xC7, CHR 0xC3] @ ''O!!  x_y'') =
     ''kit promo'' @ [CHR 0xE7, CHR 0xE3] @ ''o x_y'' \<and>
   normalize_text (''kit promo'' @ [CHR 0xE7, CHR 0xE3] @ ''o x_y'') =
     ''kit promo'' @ [CHR 0xE7, CHR 0xE3] @ ''o x_y''"
proof -
  have a: "normalize_text (''Kit-Promo'' @ [CHR 0xC7, CHR 0xC3] @ ''O!!  x_y'') =
     ''kit promo'' @ [CHR 0xE7, CHR 0xE3] @ ''o x_y''"
    by code_simp
  from normalize_text_idempotent [of "''Kit-Promo'' @ [CHR 0xC7, CHR 0xC3] @ ''O!!  x_y''"]
  have "normalize_text (normalize_text (''Kit-Promo'' @ [CHR 0xC7, CHR 0xC3] @ ''O!!  x_y'')) =
     normalize_text (''Kit-Promo'' @ [CHR 0xC7, CHR 0xC3] @ ''O!!  x_y'')" by (rule conjunct1)
  with a show ?thesis by simp
qed

section \<open>The candidate filter\<close>

lemma annotate_sel [simp]:
  "url (annotate cat p) = url p" "product_id (annotate cat p) = url p"
  "sold (annotate cat p) = sold p" "rating (annotate cat p) = rating p"
  "sim_key (annotate cat p) = similarity_key cat (title p)"
  by (simp_all add: annotate_def)

lemma make_candidates_filter:
  "make_candidates cfg ids keys cat ps =
     map (annotate cat)
       (filter (\<lambda>p. (\<exists>n. sold p = Some n \<and> n \<noteq> 0 \<and> sold_min cfg \<le> n) \<and>
                     (rating p = None \<or>
                      (\<exists>r. rating p = Some r \<and> \<not> float_less r (rating_min cfg))) \<and>
                     url p \<notin> ids \<and> similarity_key cat (title p) \<notin> keys) ps)"
  by (induction ps) (auto simp: truthy_def split: option.splits)

text \<open>
  Claim C2. The filter keeps exactly the records whose \<open>sold\<close> is present, not zero and at
  least \<open>sold_min\<close>, whose \<open>rating\<close> is absent or not below \<open>rating_min\<close>, and whose
  address and similarity key are not used yet. So a record is rejected when \<open>sold\<close> is
  absent or below \<open>sold_min\<close>, rejected when \<open>rating\<close> is present and below \<open>rating_min\<close>,
  not rejected for an absent rating; and every record of the output has a \<open>sold\<close> that is
  present and at least \<open>sold_min\<close>.
\<close>

theorem candidate_filter:
  "make_candidates cfg ids keys cat ps =
     map (annotate cat)
       (filter (\<lambda>p. (\<exists>n. sold p = Some n \<and> n \<noteq> 0 \<and> sold_min cfg \<le> n) \<and>
                     (rating p = None \<or>
                      (\<exists>r. rating p = Some r \<and> \<not> float_less r (rating_min cfg))) \<and>
                     url p \<notin> ids \<and> similarity_key cat (title p) \<notin> keys) ps) \<and>
   (\<forall>c \<in> set (make_candidates cfg ids keys cat ps). \<exists>n. sold c = Some n \<and> sold_min cfg \<le> n)"
proof
  show "make_candidates cfg ids keys cat ps =
     map (annotate cat)
       (filter (\<lambda>p. (\<exists>n. sold p = Some n \<and> n \<noteq> 0 \<and> sold_min cfg \<le> n) \<and>
                     (rating p = None \<or>
                      (\<exists>r. rating p = Some r \<and> \<not> float_less r (rating_min cfg))) \<and>
                     url p \<notin> ids \<and> similarity_key cat (title p) \<notin> keys) ps)"
    by (rule make_candidates_filter)
  show "\<forall>c \<in> set (make_candidates cfg ids keys cat ps). \<exists>n. sold c = Some n \<and> sold_min cfg \<le> n"
    by (auto simp: make_candidates_filter)
qed

theorem candidate_filter_witness:
  "map url (make_candidates (ex_config 1 100) {} {} ''Pets'' ex_results) = [''u3'', ''u4'', ''u5'']"
proof -
  have "make_candidates (ex_config 1 100) {} {} ''Pets'' ex_results =
     map (annotate ''Pets'')
       (filter (\<lambda>p. (\<exists>n. sold p = Some n \<and> n \<noteq> 0 \<and> sold_min (ex_config 1 100) \<le> n) \<and>
                     (rating p = None \<or>
                      (\<exists>r. rating p = Some r \<and> \<not> float_less r (rating_min (ex_config 1 100)))) \<and>
                     url p \<notin> {} \<and> similarity_key ''Pets'' (title p) \<notin> {}) ex_results)"
    using candidate_filter [of "ex_config 1 100" "{}" "{}" "''Pets''" ex_results] by (rule conjunct1)
  then show ?thesis
    by (simp add: ex_results_def ex_product_def ex_config_def comp_def)
qed

text \<open>
  Claim C10. A record whose \<open>sold\<close> is present and equal to 0 is rejected whatever
  \<open>sold_min\<close> is (0 included): the filter goes on to the next record exactly as it does
  for a record without \<open>sold\<close>, and the record is in no output of the filter.
\<close>

theorem zero_sold_rejected:
  "sold p = Some 0 \<Longrightarrow>
     make_candidates cfg ids keys cat (p # ps) = make_candidates cfg ids keys cat ps \<and>
     make_candidates cfg ids keys cat (p\<lparr>sold := None\<rparr> # ps) = make_candidates cfg ids keys cat ps \<and>
     annotate cat p \<notin> set (make_candidates cfg ids keys cat qs)"
proof -
  assume z: "sold p = Some 0"
  have "annotate cat p = annotate cat x \<Longrightarrow> sold x = Some 0" for x
    using z by (metis annotate_sel(3))
  then have "annotate cat p \<notin> set (make_candidates cfg ids keys cat qs)"
    by (auto simp: make_candidates_filter)
  with z show ?thesis by (simp add: truthy_def)
qed

theorem zero_sold_rejected_witness:
  "sold (ex_product ''Tapete Gato'' ''u7'' (Some 0) None) = Some 0 \<and>
   make_candidates (ex_config 1 0) {} {} ''Pets'' [ex_product ''Tapete Gato'' ''u7'' (Some 0) None] = []"
proof -
  have h: "sold (ex_product ''Tapete Gato'' ''u7'' (Some 0) None) = Some 0"
    by (simp add: ex_product_def)
  from zero_sold_rejected [OF h, of "ex_config 1 0" "{}" "{}" "''Pets''" "[]"] h
  show ?thesis by simp
qed

section \<open>The picks of a run\<close>

lemma pick_loop_distinct:
  "distinct (map sim_key picks) \<Longrightarrow> distinct (map sim_key (pick_loop n cs picks))"
proof (induction n cs picks rule: pick_loop.induct)
  case (1 n picks)
  then show ?case by simp
next
  case (2 n cand cs picks)
  show ?case
  proof (cases "n \<le> int (length picks) \<or> list_ex (\<lambda>c. sim_key c = sim_key cand) picks")
    case True
    with 2 show ?thesis by auto
  next
    case False
    then have "sim_key cand \<notin> sim_key ` set picks" by (auto simp: list_ex_iff)
    with 2(3) have "distinct (map sim_key (picks @ [cand]))" by simp
    with 2(2) False show ?thesis by simp
  qed
qed

lemma category_loop_distinct:
  "category_loop cfg w ids keys i cats picks = Inr picks' \<Longrightarrow> distinct (map sim_key picks)
   \<Longrightarrow> distinct (map sim_key picks')"
  by (induction cfg w ids keys i cats picks rule: category_loop.induct)
     (auto simp: pick_loop_distinct split: if_splits sum.splits)

lemma main_Picked:
  "main cfg w st = (Picked picks, st') \<Longrightarrow>
     category_loop cfg w (used_product_ids st) (used_similarity_keys st) 0 (categories cfg) []
       = Inr picks"
  by (auto simp: main_def Let_def split: if_splits sum.splits option.splits prod.splits)

lemma ex_run_two:
  "main (ex_config 2 100) ex_world ex_state =
     (Picked [annotate ''Pets'' (ex_product ''Cama Gato'' ''u3'' (Some 300) (Some (Fin (19 / 4)))),
              annotate ''Pets'' (ex_product ''Bola Cachorro'' ''u5'' (Some 120) None)],
      \<lparr> day_index = 1, used_product_ids = {''u3'', ''u5''},
        used_similarity_keys = {''Pets:cama-gato'', ''Pets:bola-cachorro''} \<rparr>)"
  by code_simp

text \<open>
  Claim C6. No two picks of a run share a similarity key: the picks of a run that went
  through have pairwise different keys. (The loop takes a candidate only when no pick made
  so far has its key, see \<open>pick_loop\<close>.)
\<close>

theorem picks_distinct_keys:
  "main cfg w st = (Picked picks, st') \<Longrightarrow> distinct (map sim_key picks)"
  using category_loop_distinct [OF main_Picked] by fastforce

theorem picks_distinct_keys_witness:
  "fst (main (ex_config 2 100) ex_world ex_state) =
     Picked [annotate ''Pets'' (ex_product ''Cama Gato'' ''u3'' (Some 300) (Some (Fin (19 / 4)))),
             annotate ''Pets'' (ex_product ''Bola Cachorro'' ''u5'' (Some 120) None)] \<and>
   distinct (map sim_key
     [annotate ''Pets'' (ex_product ''Cama Gato'' ''u3'' (Some 300) (Some (Fin (19 / 4)))),
      annotate ''Pets'' (ex_product ''Bola Cachorro'' ''u5'' (Some 120) None)])"
  using picks_distinct_keys [OF ex_run_two] ex_run_two by simp

section \<open>Insufficient inventory\<close>

lemma ex_scan_three:
  "category_loop (ex_config 3 100) ex_world (used_product_ids ex_state)
     (used_similarity_keys ex_state) 0 (categories (ex_config 3 100)) [] =
   Inr [annotate ''Pets'' (ex_product ''Cama Gato'' ''u3'' (Some 300) (Some (Fin (19 / 4)))),
        annotate ''Pets'' (ex_product ''Bola Cachorro'' ''u5'' (Some 120) None)]"
  by code_simp

text \<open>
  Claim C3. When the project is not over and the scan of all categories ends with fewer
  than \<open>per_day\<close> picks, the run raises the error that reports \<open>per_day\<close> and the number
  of picks found, and \<open>state.json\<close> (\<open>day_index\<close>, \<open>used_product_ids\<close>,
  \<open>used_similarity_keys\<close>) is what it was before the run.
\<close>

theorem insufficient_inventory:
  "day_index st + 1 \<le> total_days cfg \<Longrightarrow>
   category_loop cfg w (used_product_ids st) (used_similarity_keys st) 0 (categories cfg) []
     = Inr picks \<Longrightarrow>
   int (length picks) < per_day cfg \<Longrightarrow>
   main cfg w st = (Raised (RuntimeError (per_day cfg) (length picks)), st)"
  by (simp add: main_def Let_def)

theorem insufficient_inventory_witness:
  "main (ex_config 3 100) ex_world ex_state = (Raised (RuntimeError 3 2), ex_state)"
proof -
  have d: "day_index ex_state + 1 \<le> total_days (ex_config 3 100)"
    by (simp add: ex_state_def ex_config_def)
  have l: "int (length [annotate ''Pets'' (ex_product ''Cama Gato'' ''u3'' (Some 300) (Some (Fin (19 / 4)))),
        annotate ''Pets'' (ex_product ''Bola Cachorro'' ''u5'' (Some 120) None)])
      < per_day (ex_config 3 100)"
    by (simp add: ex_config_def)
  from insufficient_inventory [OF d ex_scan_three l] show ?thesis
    by (simp add: ex_config_def)
qed

section \<open>Runs on the same state\<close>

lemma make_candidates_props:
  "c \<in> set (make_candidates cfg ids keys cat ps) \<Longrightarrow> url c \<notin> ids \<and> product_id c = url c"
  by (auto simp: make_candidates_filter)

lemma set_sort_by_sold [simp]: "set (sort_by_sold cs) = set cs"
  by (simp add: sort_by_sold_def)

lemma pick_loop_subset: "set (pick_loop n cs picks) \<subseteq> set cs \<union> set picks"
  by (induction n cs picks rule: pick_loop.induct) auto

lemma category_loop_props:
  "category_loop cfg w ids keys i cats picks = Inr picks' \<Longrightarrow>
   \<forall>c\<in>set picks. url c \<notin> ids \<and> product_id c = url c \<Longrightarrow>
   \<forall>c\<in>set picks'. url c \<notin> ids \<and> product_id c = url c"
proof (induction cfg w ids keys i cats picks rule: category_loop.induct)
  case (1 cfg w used_ids used_keys i picks)
  then show ?case by simp
next
  case (2 cfg w used_ids used_keys i cat cats picks)
  show ?case
  proof (cases "per_day cfg \<le> int (length picks)")
    case True
    with 2 show ?thesis by simp
  next
    case False
    with 2(2) obtain results where r: "shopee_search w i (cat @ '' shopee'') = Inr results"
      by (auto split: sum.splits)
    let ?ps = "pick_loop (per_day cfg)
                 (sort_by_sold (make_candidates cfg used_ids used_keys cat results)) picks"
    have inv: "\<forall>c\<in>set ?ps. url c \<notin> used_ids \<and> product_id c = url c"
      using pick_loop_subset [of "per_day cfg"
          "sort_by_sold (make_candidates cfg used_ids used_keys cat results)" picks]
        2(3) make_candidates_props [of _ cfg used_ids used_keys cat results]
      by auto
    from 2(2) False r have "category_loop cfg w used_ids used_keys (i + 1) cats ?ps = Inr picks'"
      by simp
    from 2(1) [OF False r this inv] show ?thesis .
  qed
qed

lemma output_loop_ids:
  "output_loop w ps acc = Inr acc' \<Longrightarrow>
   fst (snd acc') = product_id ` set ps \<union> fst (snd acc)"
  by (induction w ps acc arbitrary: acc' rule: output_loop.induct) (auto split: sum.splits)

lemma main_Picked_ids:
  assumes "main cfg w st = (Picked picks, st')"
  shows "used_product_ids st' = url ` set picks \<union> used_product_ids st"
    and "url ` set picks \<inter> used_product_ids st = {}"
proof -
  have inv: "\<forall>c\<in>set picks. url c \<notin> used_product_ids st \<and> product_id c = url c"
    using category_loop_props [OF main_Picked [OF assms]] by simp
  then show "url ` set picks \<inter> used_product_ids st = {}" by auto
  from assms obtain outs ids keys where
    o: "output_loop w picks ([], used_product_ids st, used_similarity_keys st)
          = Inr (outs, ids, keys)"
    and s: "used_product_ids st' = ids"
    by (auto simp: main_def Let_def split: if_splits sum.splits option.splits prod.splits)
  from output_loop_ids [OF o] s inv
  show "used_product_ids st' = url ` set picks \<union> used_product_ids st"
    by auto
qed

lemma main_not_Picked:
  "(\<forall>picks. fst (main cfg w st) \<noteq> Picked picks) \<Longrightarrow> snd (main cfg w st) = st"
  by (auto simp: main_def Let_def split: if_splits sum.splits option.splits prod.splits)

lemma main_ids_mono: "used_product_ids st \<subseteq> used_product_ids (snd (main cfg w st))"
proof (cases "\<exists>picks. fst (main cfg w st) = Picked picks")
  case True
  then obtain picks where "main cfg w st = (Picked picks, snd (main cfg w st))"
    by (metis prod.collapse)
  from main_Picked_ids(1) [OF this] show ?thesis by auto
next
  case False
  then show ?thesis using main_not_Picked [of cfg w st] by simp
qed

lemma run_all_length [simp]: "length (run_all st rs) = length rs"
  by (induction st rs rule: run_all.induct) auto

lemma run_all_fresh:
  "k < length rs \<Longrightarrow> run_all st rs ! k = Picked q \<Longrightarrow> url ` set q \<inter> used_product_ids st = {}"
proof (induction st rs arbitrary: k rule: run_all.induct)
  case (1 st)
  then show ?case by simp
next
  case (2 st cfg w rs)
  show ?case
  proof (cases k)
    case 0
    with 2(3) have "main cfg w st = (Picked q, snd (main cfg w st))"
      by (metis nth_Cons_0 prod.collapse run_all.simps(2))
    from main_Picked_ids(2) [OF this] show ?thesis .
  next
    case (Suc k')
    with 2 have "url ` set q \<inter> used_product_ids (snd (main cfg w st)) = {}" by simp
    with main_ids_mono [of st cfg w] show ?thesis by auto
  qed
qed

lemma ex_two_runs:
  "run_all ex_state [(ex_config 1 100, ex_world), (ex_config 1 100, ex_world)] =
     [Picked [annotate ''Pets'' (ex_product ''Cama Gato'' ''u3'' (Some 300) (Some (Fin (19 / 4))))],
      Picked [annotate ''Pets'' (ex_product ''Bola Cachorro'' ''u5'' (Some 120) None)]]"
  by code_simp

text \<open>
  Claim C5. Of the runs made one after the other on the same \<open>state.json\<close>, no two that
  went through have an address in common among their picks. (A run that goes through adds
  the address of every pick to \<open>used_product_ids\<close>, \<open>main_Picked_ids\<close>; the filter rejects
  every record whose address is there already, \<open>candidate_filter\<close>; and no run removes an
  address, \<open>main_ids_mono\<close>.)
\<close>

theorem cross_run_dedup:
  "i < j \<Longrightarrow> j < length rs \<Longrightarrow> run_all st rs ! i = Picked p \<Longrightarrow> run_all st rs ! j = Picked q
   \<Longrightarrow> url ` set p \<inter> url ` set q = {}"
proof (induction st rs arbitrary: i j rule: run_all.induct)
  case (1 st)
  then show ?case by simp
next
  case (2 st cfg w rs)
  from 2(2) obtain j' where j: "j = Suc j'" by (cases j) auto
  show ?case
  proof (cases i)
    case 0
    with 2(4) have m: "main cfg w st = (Picked p, snd (main cfg w st))"
      by (metis nth_Cons_0 prod.collapse run_all.simps(2))
    have "url ` set q \<inter> used_product_ids (snd (main cfg w st)) = {}"
      using run_all_fresh [of j' rs "snd (main cfg w st)" q] 2(3,5) j by simp
    with main_Picked_ids(1) [OF m] show ?thesis by auto
  next
    case (Suc i')
    with 2 j show ?thesis by simp
  qed
qed

theorem cross_run_dedup_witness:
  "run_all ex_state [(ex_config 1 100, ex_world), (ex_config 1 100, ex_world)] ! 0 =
     Picked [annotate ''Pets'' (ex_product ''Cama Gato'' ''u3'' (Some 300) (Some (Fin (19 / 4))))] \<and>
   run_all ex_state [(ex_config 1 100, ex_world), (ex_config 1 100, ex_world)] ! 1 =
     Picked [annotate ''Pets'' (ex_product ''Bola Cachorro'' ''u5'' (Some 120) None)] \<and>
   url ` set [annotate ''Pets'' (ex_product ''Cama Gato'' ''u3'' (Some 300) (Some (Fin (19 / 4))))] \<inter>
   url ` set [annotate ''Pets'' (ex_product ''Bola Cachorro'' ''u5'' (Some 120) None)] = {}"
proof -
  let ?rs = "[(ex_config 1 100, ex_world), (ex_config 1 100, ex_world)]"
  have a: "run_all ex_state ?rs ! 0 =
     Picked [annotate ''Pets'' (ex_product ''Cama Gato'' ''u3'' (Some 300) (Some (Fin (19 / 4))))]"
    by (simp only: ex_two_runs nth_Cons_0)
  have b: "run_all ex_state ?rs ! 1 =
     Picked [annotate ''Pets'' (ex_product ''Bola Cachorro'' ''u5'' (Some 120) None)]"
    by (simp only: ex_two_runs) simp
  have "(0::nat) < 1" and "1 < length ?rs" by simp_all
  from cross_run_dedup [OF this a b] a b show ?thesis by blast
qed

end
